theory Spec2Isabelle
  imports Complex_Main "HOL-Library.Log_Nat"
begin

section \<open>Time values\<close>

text \<open>
  A \<^verbatim>\<open>datetime.time\<close> is the number of microseconds since midnight; an aware
  \<^verbatim>\<open>datetime\<close> is the number of microseconds since the epoch in UTC, which is what
  \<^verbatim>\<open>timezone.now()\<close> returns (with \<^verbatim>\<open>USE_TZ\<close> on; without it \<^verbatim>\<open>is_late\<close> compares a
  naive with an aware datetime). \<^verbatim>\<open>.date()\<close> and \<^verbatim>\<open>.time()\<close> of such a value are its UTC
  day number and time of day. A naive datetime is the same count read on the local
  wall clock; \<^verbatim>\<open>make_aware\<close> subtracts the UTC offset \<open>tz\<close> of the configured time zone,
  which is a parameter here because the project settings are not part of the sources.
\<close>

type_synonym tod = nat
type_synonym datetime = int

definition us_per_day :: int where
  "us_per_day = 86400 * 1000000"

definition time_hm :: "nat \<Rightarrow> nat \<Rightarrow> tod" where
  "time_hm h m = (h * 3600 + m * 60) * 1000000"

definition time_of :: "datetime \<Rightarrow> tod" where
  "time_of dt = nat (dt mod us_per_day)"

definition date_of :: "datetime \<Rightarrow> int" where
  "date_of dt = dt div us_per_day"

definition combine :: "int \<Rightarrow> tod \<Rightarrow> int" where
  "combine d t = d * us_per_day + int t"

definition make_aware :: "int \<Rightarrow> int \<Rightarrow> datetime" where
  "make_aware tz naive = naive - tz"

text \<open>\<^verbatim>\<open>time.fromisoformat(t.strftime('%H:%M'))\<close>: the seconds and microseconds are dropped.\<close>

definition strftime_HM :: "tod \<Rightarrow> tod" where
  "strftime_HM t = (t div 60000000) * 60000000"

section \<open>Python floats\<close>

text \<open>
  A finite float is represented by the rational it denotes. \<open>to_double\<close> rounds a
  rational to the nearest binary64 value (53 significant bits, ties to even), which
  is what a correctly rounded division returns; exponent overflow and subnormals are
  not modelled, durations between two datetimes stay far away from both.
\<close>

definition round_half_even :: "rat \<Rightarrow> int" where
  "round_half_even x =
     (let f = \<lfloor>x\<rfloor>; d = x - of_int f
      in if d < 1 / 2 then f else if 1 / 2 < d then f + 1
         else if even f then f else f + 1)"

definition ilog2 :: "rat \<Rightarrow> int" where
  "ilog2 q =
     (let (a, b) = quotient_of \<bar>q\<bar>; k = bitlen a - bitlen b
      in if 2 powi k \<le> \<bar>q\<bar> then k else k - 1)"

definition to_double :: "rat \<Rightarrow> rat" where
  "to_double q =
     (if q = 0 then 0
      else let u = 2 powi (ilog2 q - 52)
           in of_int (round_half_even (q / u)) * u)"

text \<open>\<^verbatim>\<open>timedelta.total_seconds()\<close>: the microsecond count divided by \<open>10^6\<close>, as a float.\<close>

definition total_seconds :: "int \<Rightarrow> rat" where
  "total_seconds d = to_double (of_int d / 1000000)"

text \<open>Float division \<^verbatim>\<open>x / y\<close>.\<close>

definition fdiv :: "rat \<Rightarrow> rat \<Rightarrow> rat" where
  "fdiv x y = to_double (x / y)"

text \<open>
  \<^verbatim>\<open>round(x, 2)\<close> on a float: the multiple of \<open>1/100\<close> nearest to the exact binary value
  of \<open>x\<close>, an exact tie going to the even multiple. The float returned is the one
  that prints as this decimal; the model keeps the decimal.
\<close>

definition py_round2 :: "rat \<Rightarrow> rat" where
  "py_round2 x = of_int (round_half_even (x * 100)) / 100"

section \<open>The data model of \<^verbatim>\<open>emp_apps\<close>\<close>

datatype status = Present | Absent | Late | Half_day

text \<open>
  One \<^verbatim>\<open>AttendanceRecord\<close> row; the key (employee, date) and the two bookkeeping
  timestamps are left out, and the field \<^verbatim>\<open>notes\<close> is called \<open>notes_text\<close>. The store below
  holds the row of one employee and one date.
\<close>

record AttendanceRecord =
  check_in_time :: "datetime option"
  check_out_time :: "datetime option"
  status :: status
  work_hours :: "rat option"
  notes_text :: string

record AttendanceSettings =
  standard_check_in_time :: tod
  standard_check_out_time :: tod
  late_threshold_minutes :: int
  check_in_start_time :: tod
  check_in_end_time :: tod
  check_out_start_time :: tod
  check_out_end_time :: tod

definition default_settings :: AttendanceSettings where
  "default_settings =
     \<lparr>standard_check_in_time = time_hm 9 0, standard_check_out_time = time_hm 17 0,
      late_threshold_minutes = 15,
      check_in_start_time = time_hm 7 0, check_in_end_time = time_hm 11 0,
      check_out_start_time = time_hm 15 0, check_out_end_time = time_hm 20 0\<rparr>"

text \<open>The row that \<^verbatim>\<open>get_or_create(..., defaults={'status': 'absent'})\<close> creates.\<close>

definition new_record :: AttendanceRecord where
  "new_record =
     \<lparr>check_in_time = None, check_out_time = None, status = Absent,
      work_hours = None, notes_text = []\<rparr>"

subsection \<open>Model methods\<close>

definition is_check_in_allowed :: "AttendanceSettings \<Rightarrow> datetime \<Rightarrow> bool" where
  "is_check_in_allowed s current_time =
     (let current_time_only = time_of current_time
      in check_in_start_time s \<le> current_time_only \<and> current_time_only \<le> check_in_end_time s)"

definition is_check_out_allowed :: "AttendanceSettings \<Rightarrow> datetime \<Rightarrow> bool" where
  "is_check_out_allowed s current_time =
     (let current_time_only = time_of current_time
      in check_out_start_time s \<le> current_time_only \<and> current_time_only \<le> check_out_end_time s)"

text \<open>\<^verbatim>\<open>calculate_work_hours\<close> returns a value and may set the field.\<close>

definition calculate_work_hours :: "AttendanceRecord \<Rightarrow> rat \<times> AttendanceRecord" where
  "calculate_work_hours r =
     (case (check_in_time r, check_out_time r) of
        (Some ci, Some co) \<Rightarrow>
          (let duration = co - ci;
               hours = fdiv (total_seconds duration) 3600;
               w = py_round2 hours
           in (w, r\<lparr>work_hours := Some w\<rparr>))
      | _ \<Rightarrow> (0, r))"

definition is_late :: "int \<Rightarrow> AttendanceRecord \<Rightarrow> tod \<Rightarrow> bool" where
  "is_late tz r standard_time =
     (case check_in_time r of
        Some ci \<Rightarrow>
          (let standard_datetime = make_aware tz (combine (date_of ci) standard_time)
           in standard_datetime < ci)
      | None \<Rightarrow> False)"

text \<open>
  \<^verbatim>\<open>save\<close>: the two automatic updates; the result is what is written to the row (the
  write itself is taken to succeed). The call \<^verbatim>\<open>is_late()\<close> here uses the default
  argument \<^verbatim>\<open>"09:00"\<close>, not the settings.
\<close>

definition save :: "int \<Rightarrow> AttendanceRecord \<Rightarrow> AttendanceRecord" where
  "save tz r =
     (let r1 = (if check_in_time r \<noteq> None \<and> check_out_time r \<noteq> None
                then snd (calculate_work_hours r) else r)
      in if check_in_time r1 \<noteq> None \<and> status r1 = Absent
         then (if is_late tz r1 (time_hm 9 0) then r1\<lparr>status := Late\<rparr>
               else r1\<lparr>status := Present\<rparr>)
         else r1)"

subsection \<open>The views\<close>

text \<open>
  A request is reduced to what the views read from it: the HTTP method and whether the
  user has an employee profile. Each \<^verbatim>\<open>JsonResponse\<close> with \<^verbatim>\<open>success: False\<close> is one
  constructor of \<open>failure\<close>, named after the condition that produced it. The handler
  for unexpected exceptions has no branch: with aware datetimes none of the steps
  below raises. A success carries the record that was saved.
\<close>

record request =
  method_post :: bool
  has_employee :: bool

datatype failure =
    InvalidMethod | ProfileNotFound | OutOfWindow | AlreadyCheckedIn
  | NoRecordFound | NotCheckedIn | AlreadyCheckedOut | TooSoon

type_synonym store = "AttendanceRecord option"

definition get_or_create :: "store \<Rightarrow> AttendanceRecord \<times> store" where
  "get_or_create db =
     (case db of Some r \<Rightarrow> (r, db) | None \<Rightarrow> (new_record, Some new_record))"

definition check_in ::
  "AttendanceSettings \<Rightarrow> int \<Rightarrow> request \<Rightarrow> datetime \<Rightarrow> store
     \<Rightarrow> (failure + AttendanceRecord) \<times> store" where
  "check_in s tz req current_time db =
     (if \<not> method_post req then (Inl InvalidMethod, db)
      else if \<not> has_employee req then (Inl ProfileNotFound, db)
      else if \<not> is_check_in_allowed s current_time then (Inl OutOfWindow, db)
      else
        (let (attendance_record, db1) = get_or_create db
         in if check_in_time attendance_record \<noteq> None then (Inl AlreadyCheckedIn, db1)
            else
              (let r1 = attendance_record\<lparr>check_in_time := Some current_time\<rparr>;
                   r2 = (if is_late tz r1 (strftime_HM (standard_check_in_time s))
                         then r1\<lparr>status := Late\<rparr> else r1\<lparr>status := Present\<rparr>);
                   r3 = save tz r2
               in (Inr r3, Some r3))))"

definition minimum_work_minutes :: int where
  "minimum_work_minutes = 30"

definition check_out ::
  "AttendanceSettings \<Rightarrow> int \<Rightarrow> request \<Rightarrow> datetime \<Rightarrow> store
     \<Rightarrow> (failure + AttendanceRecord) \<times> store" where
  "check_out s tz req current_time db =
     (if \<not> method_post req then (Inl InvalidMethod, db)
      else if \<not> has_employee req then (Inl ProfileNotFound, db)
      else if \<not> is_check_out_allowed s current_time then (Inl OutOfWindow, db)
      else
        (case db of
           None \<Rightarrow> (Inl NoRecordFound, db)
         | Some attendance_record \<Rightarrow>
             (case check_in_time attendance_record of
                None \<Rightarrow> (Inl NotCheckedIn, db)
              | Some ci \<Rightarrow>
                  if check_out_time attendance_record \<noteq> None then (Inl AlreadyCheckedOut, db)
                  else if total_seconds (current_time - ci) < of_int (minimum_work_minutes * 60)
                  then (Inl TooSoon, db)
                  else
                    (let r1 = attendance_record\<lparr>check_out_time := Some current_time\<rparr>;
                         r2 = snd (calculate_work_hours r1);
                         r3 = save tz r2
                     in (Inr r3, Some r3)))))"

text \<open>
  \<^verbatim>\<open>get_attendance_status\<close>, reduced to the two flags it computes; it reads the row and
  writes nothing to it.
\<close>

definition get_attendance_status ::
  "AttendanceSettings \<Rightarrow> datetime \<Rightarrow> store \<Rightarrow> (bool \<times> bool) \<times> store" where
  "get_attendance_status s current_time db =
     (case db of
        Some attendance_record \<Rightarrow>
          ((is_check_in_allowed s current_time \<and> check_in_time attendance_record = None,
            is_check_out_allowed s current_time \<and> check_in_time attendance_record \<noteq> None
              \<and> check_out_time attendance_record = None), db)
      | None \<Rightarrow> ((is_check_in_allowed s current_time, False), db))"

section \<open>The second implementation, \<^verbatim>\<open>emp_attd\<close>\<close>

text \<open>
  Here the two time fields are \<^verbatim>\<open>TimeField\<close>s, the windows are constants of the code
  and the current local time of day is read once per request. The fields and views
  carry the prefix \<open>att_\<close> to keep them apart from those of \<^verbatim>\<open>emp_apps\<close>. There is no
  work-hours field; the duration that the check-out response reports (one decimal) is
  computed for the message only and is left out.
\<close>

datatype att_status_choice = Att_present | Att_late | Att_absent

record Attendance =
  att_check_in_time :: "tod option"
  att_check_out_time :: "tod option"
  att_status :: att_status_choice
  att_is_late :: bool
  att_notes :: "string option"

type_synonym att_store = "Attendance option"

definition can_check_in :: "Attendance \<Rightarrow> tod \<Rightarrow> bool" where
  "can_check_in a now =
     ((time_hm 8 0 \<le> now \<and> now \<le> time_hm 9 0) \<and> att_check_in_time a = None)"

definition can_check_out :: "Attendance \<Rightarrow> tod \<Rightarrow> bool" where
  "can_check_out a now =
     ((time_hm 17 0 \<le> now \<and> now \<le> time_hm 18 0) \<and> att_check_in_time a \<noteq> None
        \<and> att_check_out_time a = None)"

text \<open>\<^verbatim>\<open>get_or_create\<close> with the defaults of the view; the flag is \<^verbatim>\<open>created\<close>.\<close>

definition att_get_or_create ::
  "Attendance \<Rightarrow> att_store \<Rightarrow> (Attendance \<times> bool) \<times> att_store" where
  "att_get_or_create defaults db =
     (case db of Some a \<Rightarrow> ((a, False), db) | None \<Rightarrow> ((defaults, True), Some defaults))"

definition att_check_in ::
  "request \<Rightarrow> tod \<Rightarrow> att_store \<Rightarrow> (failure + Attendance) \<times> att_store" where
  "att_check_in req now_time db =
     (if \<not> method_post req then (Inl InvalidMethod, db)
      else if \<not> has_employee req then (Inl ProfileNotFound, db)
      else if \<not> (time_hm 8 0 \<le> now_time \<and> now_time \<le> time_hm 9 0) then (Inl OutOfWindow, db)
      else
        (let defaults =
               \<lparr>att_check_in_time = Some now_time, att_check_out_time = None,
                att_status = (if time_hm 9 15 < now_time then Att_late else Att_present),
                att_is_late = (time_hm 9 15 < now_time), att_notes = None\<rparr>;
             ((attendance, created), db1) = att_get_or_create defaults db
         in if \<not> created \<and> att_check_in_time attendance \<noteq> None
            then (Inl AlreadyCheckedIn, db1)
            else if att_check_in_time attendance = None
            then
              (let a1 = attendance
                     \<lparr>att_check_in_time := Some now_time,
                      att_status := (if time_hm 9 15 < now_time then Att_late else Att_present),
                      att_is_late := (time_hm 9 15 < now_time)\<rparr>
               in (Inr a1, Some a1))
            else (Inr attendance, db1)))"

definition att_check_out ::
  "request \<Rightarrow> tod \<Rightarrow> att_store \<Rightarrow> (failure + Attendance) \<times> att_store" where
  "att_check_out req now_time db =
     (if \<not> method_post req then (Inl InvalidMethod, db)
      else if \<not> has_employee req then (Inl ProfileNotFound, db)
      else if \<not> (time_hm 17 0 \<le> now_time \<and> now_time \<le> time_hm 18 0) then (Inl OutOfWindow, db)
      else
        (case db of
           None \<Rightarrow> (Inl NoRecordFound, db)
         | Some attendance \<Rightarrow>
             if att_check_in_time attendance = None then (Inl NotCheckedIn, db)
             else if att_check_out_time attendance \<noteq> None then (Inl AlreadyCheckedOut, db)
             else
               (let a1 = attendance\<lparr>att_check_out_time := Some now_time\<rparr>
                in (Inr a1, Some a1))))"

definition post_request :: request where
  "post_request = \<lparr>method_post = True, has_employee = True\<rparr>"

text \<open>The instant \<open>h:m:s\<close> of day \<open>d\<close> in UTC.\<close>

definition utc :: "int \<Rightarrow> nat \<Rightarrow> nat \<Rightarrow> nat \<Rightarrow> datetime" where
  "utc d h m s = d * us_per_day + int ((h * 3600 + m * 60 + s) * 1000000)"

section \<open>Work hours as the specification words them\<close>

text \<open>
  These follow the specification, not the code, and are what the code is compared with:
  the exact quotient of the duration (in microseconds) by one hour, rounding half-up to
  two decimals, and "work hours are defined exactly when both timestamps are present",
  for a record and for the stored row.
\<close>

definition exact_hours :: "int \<Rightarrow> rat" where
  "exact_hours d = of_int d / 1000000 / 3600"

definition round_half_up2 :: "rat \<Rightarrow> rat" where
  "round_half_up2 x = of_int \<lfloor>x * 100 + 1 / 2\<rfloor> / 100"

definition work_hours_defined_iff :: "AttendanceRecord \<Rightarrow> bool" where
  "work_hours_defined_iff r =
     ((work_hours r \<noteq> None) = (check_in_time r \<noteq> None \<and> check_out_time r \<noteq> None))"

definition store_ok :: "store \<Rightarrow> bool" where
  "store_ok db = (case db of None \<Rightarrow> True | Some r \<Rightarrow> work_hours_defined_iff r)"

section \<open>Properties\<close>

subsection \<open>Rounding to a float loses at most one part in \<open>2^53\<close>\<close>

text \<open>
  \<open>ilog2 q\<close> is the binary exponent of \<open>q\<close>, so \<open>to_double\<close> rounds to a multiple of
  \<open>2 powi (ilog2 q - 52)\<close>, which leaves 53 significant bits.
\<close>

lemma round_half_even_err: "\<bar>of_int (round_half_even x) - x\<bar> \<le> 1 / 2"
proof -
  have "of_int \<lfloor>x\<rfloor> \<le> x" "x < of_int \<lfloor>x\<rfloor> + 1" by linarith+
  then show ?thesis
    by (auto simp: round_half_even_def Let_def)
qed

lemma ilog2_le:
  assumes "q \<noteq> 0"
  shows "2 powi (ilog2 q) \<le> \<bar>q\<bar>"
proof -
  obtain a b where ab: "quotient_of \<bar>q\<bar> = (a, b)" by (cases "quotient_of \<bar>q\<bar>")
  have b: "0 < b" using ab by (rule quotient_of_denom_pos)
  have q: "\<bar>q\<bar> = of_int a / of_int b" using ab by (rule quotient_of_div)
  have qpos: "0 < \<bar>q\<bar>" using assms by simp
  have a: "0 < a" using qpos b unfolding q by (simp add: zero_less_divide_iff)
  define k where "k = bitlen a - bitlen b"
  show ?thesis
  proof (cases "2 powi k \<le> \<bar>q\<bar>")
    case True
    then show ?thesis by (simp add: ilog2_def ab k_def)
  next
    case False
    have la: "2 ^ nat (bitlen a - 1) \<le> a" using bitlen_bounds[OF a] by simp
    have lb: "b < 2 ^ nat (bitlen b)" using bitlen_bounds[OF b] by simp
    have ba: "1 \<le> bitlen a" using a by (smt (verit) bitlen_eq_zero_iff bitlen_nonneg)
    have bb: "0 \<le> bitlen b" by (rule bitlen_nonneg)
    have "k - 1 = (bitlen a - 1) - bitlen b" by (simp add: k_def)
    then have "(2::rat) powi (k - 1) = 2 powi (bitlen a - 1) / 2 powi (bitlen b)"
      by (simp only: power_int_diff) (simp add: power_int_diff)
    also have "\<dots> = 2 ^ nat (bitlen a - 1) / 2 ^ nat (bitlen b)"
      using ba bb by (simp add: power_int_def)
    also have "\<dots> \<le> of_int a / 2 ^ nat (bitlen b)"
    proof -
      have "(2::rat) ^ nat (bitlen a - 1) \<le> of_int a"
        using la by (metis of_int_le_iff of_int_numeral of_int_power)
      then show ?thesis by (simp add: divide_right_mono)
    qed
    also have "\<dots> \<le> of_int a / of_int b"
    proof -
      have "(of_int b :: rat) \<le> 2 ^ nat (bitlen b)"
        using lb by (metis less_imp_le of_int_le_iff of_int_numeral of_int_power)
      moreover have "(0::rat) < of_int b" using b by simp
      moreover have "(0::rat) \<le> of_int a" using a by simp
      ultimately show ?thesis by (simp add: frac_le)
    qed
    finally have "2 powi (k - 1) \<le> \<bar>q\<bar>" unfolding q .
    with False show ?thesis by (simp add: ilog2_def ab k_def)
  qed
qed

lemma ilog2_less:
  assumes "q \<noteq> 0"
  shows "\<bar>q\<bar> < 2 powi (ilog2 q + 1)"
proof -
  obtain a b where ab: "quotient_of \<bar>q\<bar> = (a, b)" by (cases "quotient_of \<bar>q\<bar>")
  have b: "0 < b" using ab by (rule quotient_of_denom_pos)
  have q: "\<bar>q\<bar> = of_int a / of_int b" using ab by (rule quotient_of_div)
  have qpos: "0 < \<bar>q\<bar>" using assms by simp
  have a: "0 < a" using qpos b unfolding q by (simp add: zero_less_divide_iff)
  define k where "k = bitlen a - bitlen b"
  show ?thesis
  proof (cases "2 powi k \<le> \<bar>q\<bar>")
    case False
    then show ?thesis by (simp add: ilog2_def ab k_def)
  next
    case True
    have la: "a < 2 ^ nat (bitlen a)" using bitlen_bounds[OF a] by simp
    have lb: "2 ^ nat (bitlen b - 1) \<le> b" using bitlen_bounds[OF b] by simp
    have ba: "0 \<le> bitlen a" by (rule bitlen_nonneg)
    have bb: "1 \<le> bitlen b" using b by (smt (verit) bitlen_eq_zero_iff bitlen_nonneg)
    have a': "(of_int a :: rat) < 2 ^ nat (bitlen a)"
      using la by (metis of_int_less_iff of_int_numeral of_int_power)
    have b': "(2::rat) ^ nat (bitlen b - 1) \<le> of_int b"
      using lb by (metis of_int_le_iff of_int_numeral of_int_power)
    have "\<bar>q\<bar> = of_int a / of_int b" by (rule q)
    also have "\<dots> < 2 ^ nat (bitlen a) / of_int b"
      using a' b by (simp add: divide_strict_right_mono)
    also have "\<dots> \<le> 2 ^ nat (bitlen a) / 2 ^ nat (bitlen b - 1)"
      using b' by (simp add: frac_le)
    also have "\<dots> = 2 powi (bitlen a) / 2 powi (bitlen b - 1)"
      using ba bb by (simp add: power_int_def)
    also have "\<dots> = 2 powi (bitlen a - (bitlen b - 1))"
      by (simp add: power_int_diff)
    also have "bitlen a - (bitlen b - 1) = k + 1" by (simp add: k_def)
    finally show ?thesis using True by (simp add: ilog2_def ab k_def)
  qed
qed

lemma to_double_err: "\<bar>to_double q - q\<bar> \<le> \<bar>q\<bar> / 2 ^ 53"
proof (cases "q = 0")
  case True
  then show ?thesis by (simp add: to_double_def)
next
  case False
  define u :: rat where "u = 2 powi (ilog2 q - 52)"
  have u: "0 < u" by (simp add: u_def)
  have td: "to_double q = of_int (round_half_even (q / u)) * u"
    using False by (simp add: to_double_def u_def Let_def)
  have "to_double q - q = (of_int (round_half_even (q / u)) - q / u) * u"
    using u by (simp add: td algebra_simps)
  then have "\<bar>to_double q - q\<bar> = \<bar>of_int (round_half_even (q / u)) - q / u\<bar> * u"
    using u by (simp add: abs_mult)
  also have "\<dots> \<le> 1 / 2 * u"
    using round_half_even_err[of "q / u"] u by (simp add: mult_right_mono)
  also have "\<dots> = 2 powi (ilog2 q) / 2 ^ 53"
    by (simp add: u_def power_int_diff)
  also have "\<dots> \<le> \<bar>q\<bar> / 2 ^ 53"
    using ilog2_le[OF False] by (simp add: divide_right_mono)
  finally show ?thesis .
qed

lemma total_seconds_less:
  assumes "d < 1800000000"
  shows "total_seconds d < 1800"
proof -
  define q :: rat where "q = of_int d / 1000000"
  define c :: rat where "c = \<bar>q\<bar> / 2 ^ 53"
  have "\<bar>to_double q - q\<bar> \<le> c" unfolding c_def by (rule to_double_err)
  then have e: "to_double q \<le> q + c" by linarith
  have "d \<le> 1799999999" using assms by simp
  then have "(of_int d :: rat) \<le> of_int 1799999999" by (simp only: of_int_le_iff)
  then have q: "q \<le> 1799999999 / 1000000" by (simp add: q_def)
  have "to_double q < 1800"
  proof (cases "0 \<le> q")
    case True
    then have "c \<le> (1799999999 / 1000000) / 2 ^ 53"
      unfolding c_def using q by (simp add: divide_right_mono)
    also have "\<dots> < 1 / 1000000" by simp
    finally show ?thesis using e q by linarith
  next
    case False
    then have "c \<le> - q" unfolding c_def by (simp add: field_simps)
    then show ?thesis using e False by linarith
  qed
  then show ?thesis by (simp add: total_seconds_def q_def)
qed

subsection \<open>The window check comes first at check-out\<close>

text \<open>
  C6. A check-out request outside the check-out window is answered with the
  out-of-window failure whatever the row holds (no row, no check-in, a check-in a
  moment ago, a check-out already recorded), and the row is left as it was. This holds
  for the view of \<^verbatim>\<open>emp_apps\<close> with its configured window and for the view of
  \<^verbatim>\<open>emp_attd\<close> with its fixed window from 17:00 to 18:00.
\<close>

theorem check_out_window_checked_first:
  assumes "method_post req" and "has_employee req"
  shows "(\<not> is_check_out_allowed s now \<longrightarrow> check_out s tz req now db = (Inl OutOfWindow, db))
       \<and> (\<not> (time_hm 17 0 \<le> t \<and> t \<le> time_hm 18 0)
            \<longrightarrow> att_check_out req t adb = (Inl OutOfWindow, adb))"
  using assms by (simp add: check_out_def att_check_out_def)

theorem check_out_window_checked_first_witness:
  "\<not> is_check_out_allowed default_settings (utc 0 8 10 0)
   \<and> check_out default_settings 0 post_request (utc 0 8 10 0)
        (Some (new_record\<lparr>check_in_time := Some (utc 0 8 0 0), status := Present\<rparr>))
     = (Inl OutOfWindow,
        Some (new_record\<lparr>check_in_time := Some (utc 0 8 0 0), status := Present\<rparr>))
   \<and> att_check_out post_request (time_hm 8 10)
        (Some \<lparr>att_check_in_time = Some (time_hm 8 0), att_check_out_time = None,
               att_status = Att_present, att_is_late = False, att_notes = None\<rparr>)
     = (Inl OutOfWindow,
        Some \<lparr>att_check_in_time = Some (time_hm 8 0), att_check_out_time = None,
               att_status = Att_present, att_is_late = False, att_notes = None\<rparr>)"
proof -
  have w: "\<not> is_check_out_allowed default_settings (utc 0 8 10 0)"
    by (simp add: is_check_out_allowed_def default_settings_def utc_def time_of_def
        us_per_day_def time_hm_def)
  have v: "\<not> (time_hm 17 0 \<le> time_hm 8 10 \<and> time_hm 8 10 \<le> time_hm 18 0)"
    by (simp add: time_hm_def)
  show ?thesis
    using check_out_window_checked_first [of post_request default_settings "utc 0 8 10 0" 0
        "Some (new_record\<lparr>check_in_time := Some (utc 0 8 0 0), status := Present\<rparr>)"
        "time_hm 8 10"
        "Some \<lparr>att_check_in_time = Some (time_hm 8 0), att_check_out_time = None,
               att_status = Att_present, att_is_late = False, att_notes = None\<rparr>"] w v
    by (simp add: post_request_def)
qed

subsection \<open>The minimum work time\<close>

text \<open>
  C3. In \<^verbatim>\<open>emp_apps\<close>, when the row has a check-in time and no check-out time and the
  request comes inside the check-out window but less than 30 minutes after the
  check-in, the view answers with the too-soon failure and the row keeps its empty
  check-out time (it is not written at all). The comparison is the one of the code,
  on the float \<^verbatim>\<open>total_seconds()\<close>.
\<close>

theorem check_out_too_soon:
  assumes "method_post req" and "has_employee req"
    and "is_check_out_allowed s now"
    and "check_in_time r = Some ci" and "check_out_time r = None"
    and "now - ci < minimum_work_minutes * 60 * 1000000"
  shows "check_out s tz req now (Some r) = (Inl TooSoon, Some r)"
proof -
  have "now - ci < 1800000000" using assms(6) by (simp add: minimum_work_minutes_def)
  then have "total_seconds (now - ci) < 1800" by (rule total_seconds_less)
  then show ?thesis using assms(1-5) by (simp add: check_out_def minimum_work_minutes_def)
qed

text \<open>The scenario of the specification: check-in at 17:00, check-out tried at 17:05.\<close>

theorem check_out_too_soon_witness:
  "is_check_out_allowed
      (default_settings\<lparr>check_out_start_time := time_hm 17 0, check_out_end_time := time_hm 18 0\<rparr>)
      (utc 0 17 5 0)
   \<and> check_out
        (default_settings\<lparr>check_out_start_time := time_hm 17 0, check_out_end_time := time_hm 18 0\<rparr>)
        0 post_request (utc 0 17 5 0)
        (Some (new_record\<lparr>check_in_time := Some (utc 0 17 0 0), status := Late\<rparr>))
     = (Inl TooSoon, Some (new_record\<lparr>check_in_time := Some (utc 0 17 0 0), status := Late\<rparr>))"
proof -
  let ?s = "default_settings\<lparr>check_out_start_time := time_hm 17 0,
              check_out_end_time := time_hm 18 0\<rparr>"
  let ?r = "new_record\<lparr>check_in_time := Some (utc 0 17 0 0), status := Late\<rparr>"
  have w: "is_check_out_allowed ?s (utc 0 17 5 0)"
    by (simp add: is_check_out_allowed_def default_settings_def utc_def time_of_def
        us_per_day_def time_hm_def)
  have d: "utc 0 17 5 0 - utc 0 17 0 0 < minimum_work_minutes * 60 * 1000000"
    by (simp add: utc_def minimum_work_minutes_def)
  show ?thesis
    using check_out_too_soon [of post_request ?s "utc 0 17 5 0" ?r "utc 0 17 0 0" 0] w d
    by (simp add: post_request_def new_record_def)
qed

subsection \<open>A second check-in\<close>

lemma save_check_in_time: "check_in_time (save tz r) = check_in_time r"
  by (simp add: save_def calculate_work_hours_def Let_def split: option.splits)

lemma check_in_sets_check_in_time:
  assumes "method_post req" and "has_employee req" and "is_check_in_allowed s t"
  shows "\<exists>r. snd (check_in s tz req t db) = Some r \<and> check_in_time r \<noteq> None"
  using assms
  by (cases db) (simp_all add: check_in_def get_or_create_def new_record_def Let_def
      save_check_in_time)

lemma att_check_in_sets_check_in_time:
  assumes "method_post req" and "has_employee req"
    and "time_hm 8 0 \<le> t \<and> t \<le> time_hm 9 0"
  shows "\<exists>a. snd (att_check_in req t db) = Some a \<and> att_check_in_time a \<noteq> None"
  using assms
  by (cases db) (auto simp add: att_check_in_def att_get_or_create_def Let_def)

text \<open>
  C4. Take any state of the row (none, or any record) and two check-in requests at
  times inside the check-in window. Whatever the first one did, the second one is
  answered with the already-checked-in failure and leaves the row exactly as the first
  one left it: the stored check-in time and status are not overwritten. This holds for
  \<^verbatim>\<open>emp_apps\<close> (window from the settings) and for \<^verbatim>\<open>emp_attd\<close> (08:00 to 09:00).
\<close>

theorem check_in_twice:
  assumes "method_post req" and "has_employee req"
    and "is_check_in_allowed s t1" and "is_check_in_allowed s t2"
    and "time_hm 8 0 \<le> u1 \<and> u1 \<le> time_hm 9 0" and "time_hm 8 0 \<le> u2 \<and> u2 \<le> time_hm 9 0"
  shows "check_in s tz req t2 (snd (check_in s tz req t1 db))
           = (Inl AlreadyCheckedIn, snd (check_in s tz req t1 db))
       \<and> att_check_in req u2 (snd (att_check_in req u1 adb))
           = (Inl AlreadyCheckedIn, snd (att_check_in req u1 adb))"
proof -
  obtain r where r: "snd (check_in s tz req t1 db) = Some r" "check_in_time r \<noteq> None"
    using check_in_sets_check_in_time [OF assms(1-3)] by blast
  obtain a where a: "snd (att_check_in req u1 adb) = Some a" "att_check_in_time a \<noteq> None"
    using att_check_in_sets_check_in_time [OF assms(1,2,5)] by blast
  have "check_in s tz req t2 (Some r) = (Inl AlreadyCheckedIn, Some r)"
    using assms(1,2,4) r(2) by (simp add: check_in_def get_or_create_def)
  moreover have "att_check_in req u2 (Some a) = (Inl AlreadyCheckedIn, Some a)"
    using assms(1,2,6) a(2) by (simp add: att_check_in_def att_get_or_create_def)
  ultimately show ?thesis by (simp add: r(1) a(1))
qed

theorem check_in_twice_witness:
  "is_check_in_allowed default_settings (utc 0 8 0 0)
   \<and> is_check_in_allowed default_settings (utc 0 8 30 0)
   \<and> snd (check_in default_settings 0 post_request (utc 0 8 0 0) None)
       = Some (new_record\<lparr>check_in_time := Some (utc 0 8 0 0), status := Present\<rparr>)
   \<and> check_in default_settings 0 post_request (utc 0 8 30 0)
        (snd (check_in default_settings 0 post_request (utc 0 8 0 0) None))
       = (Inl AlreadyCheckedIn,
          Some (new_record\<lparr>check_in_time := Some (utc 0 8 0 0), status := Present\<rparr>))
   \<and> att_check_in post_request (time_hm 8 30) (snd (att_check_in post_request (time_hm 8 0) None))
       = (Inl AlreadyCheckedIn, snd (att_check_in post_request (time_hm 8 0) None))"
proof -
  have w1: "is_check_in_allowed default_settings (utc 0 8 0 0)"
    by (simp add: is_check_in_allowed_def default_settings_def utc_def time_of_def
        us_per_day_def time_hm_def)
  have w2: "is_check_in_allowed default_settings (utc 0 8 30 0)"
    by (simp add: is_check_in_allowed_def default_settings_def utc_def time_of_def
        us_per_day_def time_hm_def)
  have v1: "time_hm 8 0 \<le> time_hm 8 0 \<and> time_hm 8 0 \<le> time_hm 9 0"
    by (simp add: time_hm_def)
  have v2: "time_hm 8 0 \<le> time_hm 8 30 \<and> time_hm 8 30 \<le> time_hm 9 0"
    by (simp add: time_hm_def)
  have m: "method_post post_request" "has_employee post_request"
    by (simp_all add: post_request_def)
  have first: "snd (check_in default_settings 0 post_request (utc 0 8 0 0) None)
       = Some (new_record\<lparr>check_in_time := Some (utc 0 8 0 0), status := Present\<rparr>)"
    using w1 m
    by (simp add: check_in_def get_or_create_def Let_def new_record_def save_def is_late_def
        make_aware_def combine_def date_of_def strftime_HM_def default_settings_def utc_def
        us_per_day_def time_hm_def)
  show ?thesis
    using check_in_twice [OF m w1 w2 v1 v2, of 0 None None] w1 w2 first
    by simp
qed

subsection \<open>Whether a check-in is offered\<close>

text \<open>
  C5. The check-in flag that \<^verbatim>\<open>get_attendance_status\<close> computes is true exactly when
  the time of day of the current time lies in the closed interval from the configured
  check-in start to the configured check-in end and the row has no check-in time (a
  missing row has none); computing it leaves the row as it was. The property
  \<^verbatim>\<open>can_check_in\<close> of \<^verbatim>\<open>emp_attd\<close> is the same test with the fixed interval from 08:00
  to 09:00.
\<close>

theorem can_check_in_iff:
  "fst (fst (get_attendance_status s now db))
     = ((check_in_start_time s \<le> time_of now \<and> time_of now \<le> check_in_end_time s)
        \<and> (case db of None \<Rightarrow> True | Some r \<Rightarrow> check_in_time r = None))
   \<and> snd (get_attendance_status s now db) = db
   \<and> can_check_in a t
     = ((time_hm 8 0 \<le> t \<and> t \<le> time_hm 9 0) \<and> att_check_in_time a = None)"
  by (simp add: get_attendance_status_def is_check_in_allowed_def can_check_in_def Let_def
      split: option.split)

theorem can_check_in_iff_witness:
  "fst (fst (get_attendance_status default_settings (utc 0 8 55 0) (Some new_record)))
   \<and> \<not> fst (fst (get_attendance_status default_settings (utc 0 11 0 1) (Some new_record)))
   \<and> \<not> fst (fst (get_attendance_status default_settings (utc 0 8 55 0)
          (Some (new_record\<lparr>check_in_time := Some (utc 0 8 0 0)\<rparr>))))
   \<and> snd (get_attendance_status default_settings (utc 0 8 55 0) (Some new_record))
       = Some new_record"
  using can_check_in_iff [of default_settings "utc 0 8 55 0" "Some new_record"]
    can_check_in_iff [of default_settings "utc 0 11 0 1" "Some new_record"]
    can_check_in_iff [of default_settings "utc 0 8 55 0"
      "Some (new_record\<lparr>check_in_time := Some (utc 0 8 0 0)\<rparr>)"]
  by (simp add: default_settings_def new_record_def utc_def time_of_def us_per_day_def
      time_hm_def)

subsection \<open>The status after it has been set\<close>

lemma save_status: "status r \<noteq> Absent \<Longrightarrow> status (save tz r) = status r"
  by (simp add: save_def calculate_work_hours_def Let_def split: option.splits)

lemma calculate_work_hours_status: "status (snd (calculate_work_hours r)) = status r"
  by (simp add: calculate_work_hours_def Let_def split: option.splits)

text \<open>
  A row may carry the half-day status without a check-in time (the status is an
  editable field of the admin form). The check-in view assigns the status without
  looking at the old one, so the half-day mark is replaced.
\<close>

theorem check_in_overwrites_half_day:
  "check_in default_settings 0 post_request (utc 0 8 0 0) (Some (new_record\<lparr>status := Half_day\<rparr>))
     = (Inr (new_record\<lparr>check_in_time := Some (utc 0 8 0 0), status := Present\<rparr>),
        Some (new_record\<lparr>check_in_time := Some (utc 0 8 0 0), status := Present\<rparr>))"
  by (simp add: check_in_def get_or_create_def Let_def new_record_def save_def is_late_def
      make_aware_def combine_def date_of_def strftime_HM_def default_settings_def utc_def
      us_per_day_def time_hm_def post_request_def is_check_in_allowed_def time_of_def)

text \<open>
  C7, as it holds. Once the status of a row is anything other than absent, \<^verbatim>\<open>save\<close>
  does not change it and a check-out request does not change it; and once the row also
  has a check-in time, a check-in request leaves the whole row as it was. (A successful
  check-in on a row without a check-in time sets the status to present or late whatever
  it was before.)
\<close>

theorem status_kept:
  assumes "status r \<noteq> Absent"
  shows "status (save tz r) = status r
       \<and> map_option status (snd (check_out s tz req now (Some r))) = Some (status r)
       \<and> (check_in_time r \<noteq> None
            \<longrightarrow> snd (check_in s tz req now (Some r)) = Some r)"
proof (intro conjI impI)
  show "status (save tz r) = status r" using assms by (rule save_status)
  show "map_option status (snd (check_out s tz req now (Some r))) = Some (status r)"
    using assms
    by (simp add: check_out_def Let_def save_status calculate_work_hours_status
        split: option.splits)
  show "snd (check_in s tz req now (Some r)) = Some r" if "check_in_time r \<noteq> None"
    using that by (simp add: check_in_def get_or_create_def)
qed

theorem status_kept_witness:
  "status (new_record\<lparr>check_in_time := Some (utc 0 8 0 0), status := Half_day\<rparr>) \<noteq> Absent
   \<and> status (save 0 (new_record\<lparr>check_in_time := Some (utc 0 8 0 0), status := Half_day\<rparr>))
       = Half_day
   \<and> map_option status (snd (check_out default_settings 0 post_request (utc 0 17 30 0)
        (Some (new_record\<lparr>check_in_time := Some (utc 0 8 0 0), status := Half_day\<rparr>))))
       = Some Half_day
   \<and> snd (check_in default_settings 0 post_request (utc 0 8 30 0)
        (Some (new_record\<lparr>check_in_time := Some (utc 0 8 0 0), status := Half_day\<rparr>)))
       = Some (new_record\<lparr>check_in_time := Some (utc 0 8 0 0), status := Half_day\<rparr>)"
  using status_kept [of "new_record\<lparr>check_in_time := Some (utc 0 8 0 0), status := Half_day\<rparr>"
      0 default_settings post_request "utc 0 17 30 0"]
    status_kept [of "new_record\<lparr>check_in_time := Some (utc 0 8 0 0), status := Half_day\<rparr>"
      0 default_settings post_request "utc 0 8 30 0"]
  by (simp add: new_record_def)

subsection \<open>No late check-in in \<^verbatim>\<open>emp_attd\<close>\<close>

text \<open>
  C9. In \<^verbatim>\<open>emp_attd\<close> every check-in that succeeds yields a row with status present
  and the late flag off, and that row is what the store holds afterwards: the window
  guard admits no time after 09:00 and the late cutoff is 09:15.
\<close>

theorem att_check_in_never_late:
  assumes "att_check_in req t db = (Inr a, db')"
  shows "att_status a = Att_present \<and> att_is_late a = False \<and> db' = Some a"
proof -
  have w: "\<not> time_hm 9 15 < t" if "t \<le> time_hm 9 0"
    using that by (simp add: time_hm_def)
  show ?thesis
    using assms w
    by (cases db)
      (auto simp add: att_check_in_def att_get_or_create_def Let_def split: if_splits)
qed

theorem att_check_in_never_late_witness:
  "att_check_in post_request (time_hm 9 0) None
     = (Inr \<lparr>att_check_in_time = Some (time_hm 9 0), att_check_out_time = None,
              att_status = Att_present, att_is_late = False, att_notes = None\<rparr>,
        Some \<lparr>att_check_in_time = Some (time_hm 9 0), att_check_out_time = None,
              att_status = Att_present, att_is_late = False, att_notes = None\<rparr>)"
proof -
  obtain a db' where e: "att_check_in post_request (time_hm 9 0) None = (Inr a, db')"
    and a: "att_check_in_time a = Some (time_hm 9 0)" "att_check_out_time a = None"
      "att_notes a = None"
    by (simp add: att_check_in_def att_get_or_create_def post_request_def Let_def time_hm_def)
  from att_check_in_never_late [OF e] a e show ?thesis by (cases a) simp
qed

subsection \<open>Failures write nothing\<close>

text \<open>
  C10. Whenever one of the four views answers with a failure (wrong method, no profile,
  outside the window, already checked in or out, no row, no check-in, too soon), the
  stored row is exactly what it was before the request: check-in time, check-out time,
  status, work hours and notes are all untouched, and no row is created.
\<close>

theorem failures_leave_row:
  "(isl (fst (check_in s tz req now db)) \<longrightarrow> snd (check_in s tz req now db) = db)
   \<and> (isl (fst (check_out s tz req now db)) \<longrightarrow> snd (check_out s tz req now db) = db)
   \<and> (isl (fst (att_check_in req t adb)) \<longrightarrow> snd (att_check_in req t adb) = adb)
   \<and> (isl (fst (att_check_out req t adb)) \<longrightarrow> snd (att_check_out req t adb) = adb)"
proof (intro conjI impI)
  show "snd (check_in s tz req now db) = db" if "isl (fst (check_in s tz req now db))"
    using that
    by (cases db) (auto simp add: check_in_def get_or_create_def Let_def new_record_def
        split: if_splits)
  show "snd (check_out s tz req now db) = db" if "isl (fst (check_out s tz req now db))"
    using that
    by (auto simp add: check_out_def Let_def split: if_splits option.splits)
  show "snd (att_check_in req t adb) = adb" if "isl (fst (att_check_in req t adb))"
    using that
    by (cases adb) (auto simp add: att_check_in_def att_get_or_create_def Let_def
        split: if_splits)
  show "snd (att_check_out req t adb) = adb" if "isl (fst (att_check_out req t adb))"
    using that
    by (auto simp add: att_check_out_def Let_def split: if_splits option.splits)
qed

theorem failures_leave_row_witness:
  "isl (fst (check_in default_settings 0 post_request (utc 0 12 0 0) None))
   \<and> snd (check_in default_settings 0 post_request (utc 0 12 0 0) None) = None
   \<and> isl (fst (check_out default_settings 0 post_request (utc 0 17 0 0) (Some new_record)))
   \<and> snd (check_out default_settings 0 post_request (utc 0 17 0 0) (Some new_record))
       = Some new_record
   \<and> isl (fst (att_check_in post_request (time_hm 9 30) None))
   \<and> snd (att_check_in post_request (time_hm 9 30) None) = None
   \<and> isl (fst (att_check_out post_request (time_hm 17 30) None))
   \<and> snd (att_check_out post_request (time_hm 17 30) None) = None"
proof -
  have 1: "isl (fst (check_in default_settings 0 post_request (utc 0 12 0 0) None))"
    by (simp add: check_in_def post_request_def is_check_in_allowed_def default_settings_def
        utc_def time_of_def us_per_day_def time_hm_def)
  have 2: "isl (fst (check_out default_settings 0 post_request (utc 0 17 0 0) (Some new_record)))"
    by (simp add: check_out_def post_request_def is_check_out_allowed_def default_settings_def
        utc_def time_of_def us_per_day_def time_hm_def new_record_def)
  have 3: "isl (fst (att_check_in post_request (time_hm 9 30) None))"
    by (simp add: att_check_in_def post_request_def time_hm_def)
  have 4: "isl (fst (att_check_out post_request (time_hm 17 30) None))"
    by (simp add: att_check_out_def post_request_def time_hm_def)
  show ?thesis
    using failures_leave_row [of default_settings 0 post_request "utc 0 12 0 0" None
        "time_hm 9 30" None]
      failures_leave_row [of default_settings 0 post_request "utc 0 17 0 0" "Some new_record"
        "time_hm 17 30" None]
      1 2 3 4
    by simp
qed

subsection \<open>The late threshold\<close>

text \<open>
  C1, evaluated on the code. With the default settings (standard check-in 09:00, late
  threshold 15 minutes) and the server time zone UTC, a first check-in at 09:05 is
  recorded as late: \<^verbatim>\<open>is_late\<close> compares with the standard time alone and
  \<^verbatim>\<open>late_threshold_minutes\<close> is read nowhere.
\<close>

theorem check_in_five_past_standard:
  "standard_check_in_time default_settings = time_hm 9 0
   \<and> late_threshold_minutes default_settings = 15
   \<and> check_in default_settings 0 post_request (utc 0 9 5 0) None
     = (Inr (new_record\<lparr>check_in_time := Some (utc 0 9 5 0), status := Late\<rparr>),
        Some (new_record\<lparr>check_in_time := Some (utc 0 9 5 0), status := Late\<rparr>))"
  by (simp add: check_in_def get_or_create_def Let_def new_record_def save_def is_late_def
      make_aware_def combine_def date_of_def strftime_HM_def default_settings_def utc_def
      us_per_day_def time_hm_def post_request_def is_check_in_allowed_def time_of_def)

subsection \<open>Work hours\<close>

lemma round_half_even_near:
  assumes "of_int n - 1 / 2 < z" and "z < of_int n + 1 / 2"
  shows "round_half_even z = n"
proof (cases "of_int n \<le> z")
  case True
  then have "\<lfloor>z\<rfloor> = n" using assms by (intro floor_unique) linarith+
  then show ?thesis using assms True by (simp add: round_half_even_def Let_def)
next
  case False
  then have "\<lfloor>z\<rfloor> = n - 1" using assms by (intro floor_unique) (simp, linarith)+
  then show ?thesis using assms False by (simp add: round_half_even_def Let_def)
qed

lemma float_hours_close:
  assumes "0 \<le> d"
  shows "\<bar>fdiv (total_seconds d) 3600 - exact_hours d\<bar> \<le> 3 * (exact_hours d / 2 ^ 53)"
proof -
  define qd :: rat where "qd = of_int d / 1000000"
  define h :: rat where "h = qd / 3600"
  define c :: rat where "c = h / 2 ^ 53"
  define s where "s = to_double qd"
  define x where "x = to_double (s / 3600)"
  have qd0: "0 \<le> qd" using assms by (simp add: qd_def)
  then have h0: "0 \<le> h" by (simp add: h_def)
  then have c0: "0 \<le> c" by (simp add: c_def)
  have ch: "c \<le> h" using h0 unfolding c_def by (simp add: field_simps)
  have qdh: "qd = 3600 * h" by (simp add: h_def)
  have "\<bar>s - qd\<bar> \<le> \<bar>qd\<bar> / 2 ^ 53" unfolding s_def by (rule to_double_err)
  also have "\<dots> = 3600 * c" using qd0 by (simp add: c_def qdh)
  finally have e1: "\<bar>s - qd\<bar> \<le> 3600 * c" .
  have s3: "\<bar>s / 3600 - h\<bar> \<le> c"
  proof -
    have a: "s / 3600 - h = (s - qd) / 3600" by (simp add: qdh field_simps)
    have "\<bar>s / 3600 - h\<bar> = \<bar>(s - qd) / 3600\<bar>" by (simp only: a)
    also have "\<dots> = \<bar>s - qd\<bar> / 3600" by (simp only: abs_divide abs_numeral)
    finally have b: "\<bar>s / 3600 - h\<bar> = \<bar>s - qd\<bar> / 3600" .
    have "\<bar>s - qd\<bar> / 3600 \<le> 3600 * c / 3600" using e1 by (rule divide_right_mono) simp
    then show ?thesis by (simp add: b)
  qed
  with h0 have sb: "\<bar>s / 3600\<bar> \<le> h + c" by linarith
  have "\<bar>x - s / 3600\<bar> \<le> \<bar>s / 3600\<bar> / 2 ^ 53" unfolding x_def by (rule to_double_err)
  also have "\<dots> \<le> (h + c) / 2 ^ 53" using sb by (simp add: divide_right_mono)
  also have "\<dots> \<le> (h + h) / 2 ^ 53" using ch by (simp add: divide_right_mono)
  also have "\<dots> = 2 * c" by (simp add: c_def)
  finally have e2: "\<bar>x - s / 3600\<bar> \<le> 2 * c" .
  have "\<bar>x - h\<bar> \<le> 3 * c" using e2 s3 by linarith
  then show ?thesis
    by (simp add: x_def s_def fdiv_def total_seconds_def exact_hours_def h_def qd_def c_def)
qed

text \<open>
  Away from the ties the two float roundings cannot move the quotient across a rounding
  boundary: the boundaries are at least \<open>1/36000000\<close> away from a non-tie value (in
  hundredths of an hour) and the float error is far smaller for any duration below
  \<open>10^15\<close> microseconds.
\<close>

lemma py_round2_hours:
  assumes "0 \<le> d" and "d < 1000000000000000" and "d mod 36000000 \<noteq> 18000000"
  shows "py_round2 (fdiv (total_seconds d) 3600) = round_half_up2 (exact_hours d)"
proof -
  define h where "h = exact_hours d"
  define x where "x = fdiv (total_seconds d) 3600"
  define q where "q = d div 36000000"
  define r where "r = d mod 36000000"
  have d: "d = 36000000 * q + r" by (simp add: q_def r_def)
  have r0: "0 \<le> r" and r1: "r < 36000000" by (simp_all add: r_def)
  define t :: rat where "t = of_int r / 36000000"
  have y: "h * 100 = of_int q + t"
    by (simp add: h_def exact_hours_def d t_def)
  have h0: "0 \<le> h" using assms(1) by (simp add: h_def exact_hours_def)
  have "d \<le> 1000000000000000" using assms(2) by simp
  then have "(of_int d :: rat) \<le> of_int 1000000000000000" by (simp only: of_int_le_iff)
  then have hb: "h \<le> 1000000000000000 / 3600000000"
    by (simp add: h_def exact_hours_def)
  have "\<bar>x - h\<bar> \<le> 3 * (h / 2 ^ 53)"
    unfolding x_def h_def using assms(1) by (rule float_hours_close)
  also have "\<dots> \<le> 3 * ((1000000000000000 / 3600000000) / 2 ^ 53)"
    using hb by (simp add: divide_right_mono)
  also have "\<dots> < 1 / 3600000000" by simp
  finally have "\<bar>x - h\<bar> < 1 / 3600000000" .
  then have cl: "x * 100 < h * 100 + 1 / 36000000" "h * 100 - 1 / 36000000 < x * 100"
    by linarith+
  define n where "n = \<lfloor>h * 100 + 1 / 2\<rfloor>"
  have "of_int n - 1 / 2 < x * 100 \<and> x * 100 < of_int n + 1 / 2"
  proof (cases "r < 18000000")
    case True
    then have "r \<le> 17999999" by simp
    then have "(of_int r :: rat) \<le> of_int 17999999" by (simp only: of_int_le_iff)
    then have ru: "t \<le> 1 / 2 - 1 / 36000000" by (simp add: t_def)
    have rl: "0 \<le> t" using r0 by (simp add: t_def)
    have "n = q" unfolding n_def y using ru rl by (intro floor_unique) linarith+
    then have "of_int n = h * 100 - t" using y by simp
    then show ?thesis using cl ru rl by linarith
  next
    case False
    then have "18000001 \<le> r" using assms(3) by (simp add: r_def)
    then have "(of_int 18000001 :: rat) \<le> of_int r" by (simp only: of_int_le_iff)
    then have rl: "1 / 2 + 1 / 36000000 \<le> t" by (simp add: t_def)
    have "(of_int r :: rat) < of_int 36000000" using r1 by (simp only: of_int_less_iff)
    then have ru: "t < 1" by (simp add: t_def)
    have "n = q + 1" unfolding n_def y using ru rl by (intro floor_unique) (simp, linarith)+
    then have "of_int n = h * 100 - t + 1" using y by simp
    then show ?thesis using cl ru rl by linarith
  qed
  then have "round_half_even (x * 100) = n" by (intro round_half_even_near) simp_all
  then show ?thesis by (simp add: py_round2_def round_half_up2_def x_def h_def n_def)
qed

lemma save_work_hours_defined_iff:
  "work_hours_defined_iff r \<Longrightarrow> work_hours_defined_iff (save tz r)"
  by (cases "check_in_time r"; cases "check_out_time r")
    (simp_all add: work_hours_defined_iff_def save_def calculate_work_hours_def Let_def)

lemma save_both_work_hours_defined_iff:
  "check_in_time r \<noteq> None \<Longrightarrow> check_out_time r \<noteq> None
     \<Longrightarrow> work_hours_defined_iff (save tz r)"
  by (cases "check_in_time r"; cases "check_out_time r")
    (simp_all add: work_hours_defined_iff_def save_def calculate_work_hours_def Let_def)

lemma check_in_store_ok:
  assumes "store_ok db"
  shows "store_ok (snd (check_in s tz req now db))"
proof (cases db)
  case None
  then show ?thesis
    by (simp add: check_in_def get_or_create_def store_ok_def Let_def new_record_def
        work_hours_defined_iff_def save_def calculate_work_hours_def)
next
  case (Some r)
  have inv: "work_hours_defined_iff r" using assms Some by (simp add: store_ok_def)
  have "work_hours_defined_iff (save tz (r\<lparr>check_in_time := Some now, status := st\<rparr>))"
    if n: "check_in_time r = None" for st
  proof (cases "check_out_time r")
    case None
    have "work_hours_defined_iff (r\<lparr>check_in_time := Some now, status := st\<rparr>)"
      using inv n None by (simp add: work_hours_defined_iff_def)
    then show ?thesis by (rule save_work_hours_defined_iff)
  next
    case (Some co)
    then show ?thesis by (intro save_both_work_hours_defined_iff) simp_all
  qed
  then show ?thesis using assms Some
    by (simp add: check_in_def get_or_create_def store_ok_def Let_def)
qed

lemma check_out_success:
  assumes "fst (check_out s tz req now db) = Inr r'" and "store_ok db"
  shows "\<exists>r ci. db = Some r \<and> check_in_time r = Some ci \<and> check_out_time r = None
           \<and> \<not> total_seconds (now - ci) < 1800
           \<and> snd (check_out s tz req now db) = Some r'
           \<and> check_in_time r' = Some ci \<and> check_out_time r' = Some now
           \<and> work_hours r' = Some (py_round2 (fdiv (total_seconds (now - ci)) 3600))"
  using assms
  by (auto simp add: check_out_def Let_def minimum_work_minutes_def save_def
      calculate_work_hours_def split: if_splits option.splits)

lemma total_seconds_eval1: "total_seconds 29250000000 = 29250"
  by code_simp

lemma fdiv_eval1: "fdiv 29250 3600 = 65 / 8"
  by code_simp

lemma py_round2_eval1: "py_round2 (65 / 8) = 203 / 25"
  by code_simp

lemma total_seconds_eval2: "total_seconds 30600000000 = 30600"
  by code_simp

lemma fdiv_eval2: "fdiv 30600 3600 = 17 / 2"
  by code_simp

lemma py_round2_eval2: "py_round2 (17 / 2) = 17 / 2"
  by code_simp

text \<open>
  A check-in at 09:00:00 and a check-out at 17:07:30 are 8.125 hours apart, a value the
  float holds exactly. \<^verbatim>\<open>round(8.125, 2)\<close> is 8.12 (the tie goes to the even
  hundredth), half-up rounding gives 8.13.
\<close>

theorem work_hours_tie_not_half_up:
  "check_out default_settings 0 post_request (utc 0 17 7 30)
      (Some (new_record\<lparr>check_in_time := Some (utc 0 9 0 0), status := Present\<rparr>))
     = (Inr (new_record\<lparr>check_in_time := Some (utc 0 9 0 0),
               check_out_time := Some (utc 0 17 7 30), status := Present,
               work_hours := Some (812 / 100)\<rparr>),
        Some (new_record\<lparr>check_in_time := Some (utc 0 9 0 0),
               check_out_time := Some (utc 0 17 7 30), status := Present,
               work_hours := Some (812 / 100)\<rparr>))
   \<and> round_half_up2 (exact_hours (utc 0 17 7 30 - utc 0 9 0 0)) = 813 / 100"
proof -
  have w: "is_check_out_allowed default_settings (utc 0 17 7 30)"
    by (simp add: is_check_out_allowed_def default_settings_def utc_def time_of_def
        us_per_day_def time_hm_def)
  have d: "utc 0 17 7 30 - utc 0 9 0 0 = 29250000000"
    by (simp add: utc_def)
  have "round_half_up2 (exact_hours 29250000000) = 813 / 100"
    by code_simp
  then show ?thesis
    using w
    by (simp add: check_out_def post_request_def new_record_def d total_seconds_eval1
        fdiv_eval1 py_round2_eval1 minimum_work_minutes_def calculate_work_hours_def
        save_def Let_def)
qed

text \<open>
  C2, as it holds. Check-in and check-out keep the stored row in the state where work
  hours are defined exactly when both timestamps are present (a missing row and a
  freshly created row are in that state). A successful check-out of a row checked in
  at \<open>ci\<close> stores the check-out time and the work hours
  \<^verbatim>\<open>round((now - ci).total_seconds() / 3600, 2)\<close>; when the duration is below \<open>10^15\<close>
  microseconds and is not a tie (an odd multiple of 18 seconds, where the exact
  quotient lies halfway between two hundredths), this is the exact quotient rounded
  half-up to two decimals.
\<close>

theorem work_hours_defined_and_rounded:
  assumes "store_ok db"
  shows "store_ok (snd (check_in s tz req now db))
       \<and> store_ok (snd (check_out s tz req now db))
       \<and> (db = Some r \<and> check_in_time r = Some ci \<and> fst (check_out s tz req now db) = Inr r'
            \<longrightarrow> check_in_time r' = Some ci \<and> check_out_time r' = Some now
              \<and> work_hours r' = Some (py_round2 (fdiv (total_seconds (now - ci)) 3600))
              \<and> (now - ci < 1000000000000000 \<and> (now - ci) mod 36000000 \<noteq> 18000000
                   \<longrightarrow> work_hours r' = Some (round_half_up2 (exact_hours (now - ci)))))"
proof (intro conjI impI)
  show "store_ok (snd (check_in s tz req now db))" using assms by (rule check_in_store_ok)
  show "store_ok (snd (check_out s tz req now db))"
  proof (cases "fst (check_out s tz req now db)")
    case (Inl e)
    then have "snd (check_out s tz req now db) = db"
      by (auto simp add: check_out_def Let_def split: if_splits option.splits)
    then show ?thesis using assms by simp
  next
    case (Inr r')
    from check_out_success [OF Inr assms] show ?thesis
      by (auto simp add: store_ok_def work_hours_defined_iff_def)
  qed
next
  assume a: "db = Some r \<and> check_in_time r = Some ci \<and> fst (check_out s tz req now db) = Inr r'"
  then have f: "fst (check_out s tz req now db) = Inr r'" by blast
  from check_out_success [OF f assms] a
  have ts: "\<not> total_seconds (now - ci) < 1800"
    and ci: "check_in_time r' = Some ci" and co: "check_out_time r' = Some now"
    and wh: "work_hours r' = Some (py_round2 (fdiv (total_seconds (now - ci)) 3600))"
    by auto
  show "check_in_time r' = Some ci" by (rule ci)
  show "check_out_time r' = Some now" by (rule co)
  show "work_hours r' = Some (py_round2 (fdiv (total_seconds (now - ci)) 3600))" by (rule wh)
  assume b: "now - ci < 1000000000000000 \<and> (now - ci) mod 36000000 \<noteq> 18000000"
  have "\<not> now - ci < 1800000000" using ts total_seconds_less by blast
  then have "0 \<le> now - ci" by simp
  then show "work_hours r' = Some (round_half_up2 (exact_hours (now - ci)))"
    using b wh by (simp add: py_round2_hours)
qed

theorem work_hours_defined_and_rounded_witness:
  "store_ok (Some (new_record\<lparr>check_in_time := Some (utc 0 9 0 0), status := Present\<rparr>))
   \<and> fst (check_out default_settings 0 post_request (utc 0 17 30 0)
        (Some (new_record\<lparr>check_in_time := Some (utc 0 9 0 0), status := Present\<rparr>)))
     = Inr (new_record\<lparr>check_in_time := Some (utc 0 9 0 0),
              check_out_time := Some (utc 0 17 30 0), status := Present,
              work_hours := Some (17 / 2)\<rparr>)
   \<and> utc 0 17 30 0 - utc 0 9 0 0 < 1000000000000000
   \<and> (utc 0 17 30 0 - utc 0 9 0 0) mod 36000000 \<noteq> 18000000
   \<and> round_half_up2 (exact_hours (utc 0 17 30 0 - utc 0 9 0 0)) = 17 / 2
   \<and> store_ok (snd (check_out default_settings 0 post_request (utc 0 17 30 0)
        (Some (new_record\<lparr>check_in_time := Some (utc 0 9 0 0), status := Present\<rparr>))))"
proof -
  let ?r = "new_record\<lparr>check_in_time := Some (utc 0 9 0 0), status := Present\<rparr>"
  let ?r' = "new_record\<lparr>check_in_time := Some (utc 0 9 0 0),
              check_out_time := Some (utc 0 17 30 0), status := Present,
              work_hours := Some (17 / 2)\<rparr>"
  have ok: "store_ok (Some ?r)"
    by (simp add: store_ok_def work_hours_defined_iff_def new_record_def)
  have w: "is_check_out_allowed default_settings (utc 0 17 30 0)"
    by (simp add: is_check_out_allowed_def default_settings_def utc_def time_of_def
        us_per_day_def time_hm_def)
  have d: "utc 0 17 30 0 - utc 0 9 0 0 = 30600000000"
    by (simp add: utc_def)
  have f: "fst (check_out default_settings 0 post_request (utc 0 17 30 0) (Some ?r)) = Inr ?r'"
    using w
    by (simp add: check_out_def post_request_def new_record_def d total_seconds_eval2
        fdiv_eval2 py_round2_eval2 minimum_work_minutes_def calculate_work_hours_def
        save_def Let_def)
  have c: "check_in_time ?r = Some (utc 0 9 0 0)" by simp
  have n: "utc 0 17 30 0 - utc 0 9 0 0 < 1000000000000000
      \<and> (utc 0 17 30 0 - utc 0 9 0 0) mod 36000000 \<noteq> 18000000"
    by (simp add: d)
  from work_hours_defined_and_rounded [OF ok, of default_settings 0 post_request
      "utc 0 17 30 0" ?r "utc 0 9 0 0" ?r'] f c n ok
  show ?thesis by (simp add: new_record_def)
qed

end
